theory Spec2Isabelle
  imports Main
begin

section \<open>The phonebook service: data model\<close>

text \<open>
  The service keeps three ArangoDB collections (users, contacts, verification attempts) and
  serves them through HTTP handlers. The model below passes the database explicitly: every
  handler takes the state before the request and returns its response together with the
  state after it.

  Document keys are generated by the store and are opaque to the program, which only
  compares them and passes them back. They are modelled as natural numbers in order of
  creation. A document handle (\<open>"users/" + key\<close> in the source) is the pair of the
  collection's name and the key. Instants are nanoseconds on the wall clock.
\<close>

type_synonym key = nat
type_synonym handle = "string \<times> key"
type_synonym instant = int

record User =
  Number :: string

record Contact =
  CountryCode :: string
  Number :: string
  Name :: string

record ContactEdge =
  From :: handle
  To :: handle
  Name :: string

record VerificationAttempt =
  Key :: key
  Number :: string
  Code :: string
  CreatedAt :: instant

record VerifyRequest =
  AttemptKey :: key
  Code :: string

record GetContactsRequest =
  UserKey :: key

text \<open>
  A row of the contact listing. The key of the far endpoint is \<open>None\<close> when the traversal
  finds no vertex behind the edge (the query returns null, which decodes to Go's empty string).
\<close>

record GetContactsResult =
  Name :: string
  UserKey :: "key option"

datatype error = NotFound | NoMoreDocuments | StoreFailure

datatype payload =
    Error string
  | Message string
  | MessageToken string string
  | ContactList "GetContactsResult list"

text \<open>
  What a handler does with a request: it writes a JSON response with a status, or it panics
  (a slice out of range, a failed type assertion).
\<close>

datatype response = JSON nat payload | Panic

subsection \<open>The store\<close>

text \<open>
  A collection is the sequence of its key slots: the document with key \<open>k\<close> sits in slot
  \<open>k\<close>, and a deleted document leaves its slot empty, since the store never hands out a
  key twice. Queries without a sort clause enumerate the documents in slot order.
\<close>

type_synonym 'a collection = "'a option list"

text \<open>
  \<open>faults\<close> is the fate of the coming round trips to the store, one entry per call in the
  order the calls are made: \<open>True\<close> means that the call fails. Once the list is used up
  the store answers every call.
\<close>

record Database =
  users :: "User collection"
  contacts :: "ContactEdge collection"
  verification_attempts :: "VerificationAttempt collection"
  faults :: "bool list"

definition users_handle :: "key \<Rightarrow> handle" where
  "users_handle k = (''users'', k)"

definition lookup :: "'a collection \<Rightarrow> key \<Rightarrow> 'a option" where
  "lookup c k = (if k < length c then c ! k else None)"

fun documents_from :: "key \<Rightarrow> 'a collection \<Rightarrow> (key \<times> 'a) list" where
  "documents_from k [] = []"
| "documents_from k (None # c) = documents_from (Suc k) c"
| "documents_from k (Some d # c) = (k, d) # documents_from (Suc k) c"

definition documents :: "'a collection \<Rightarrow> (key \<times> 'a) list" where
  "documents c = documents_from 0 c"

definition store_call :: "Database \<Rightarrow> bool \<times> Database" where
  "store_call db =
     (case faults db of
        [] \<Rightarrow> (False, db)
      | f # fs \<Rightarrow> (f, db\<lparr>faults := fs\<rparr>))"

text \<open>A cursor holds the results a query has not handed out yet.\<close>

type_synonym 'a cursor = "'a list"

definition HasMore :: "'a cursor \<Rightarrow> bool" where
  "HasMore cur = (cur \<noteq> [])"

definition cursor_ReadDocument :: "'a cursor \<Rightarrow> Database \<Rightarrow> (error + 'a \<times> 'a cursor) \<times> Database" where
  "cursor_ReadDocument cur db =
     (case cur of
        [] \<Rightarrow> (Inl NoMoreDocuments, db)
      | d # rest \<Rightarrow>
          (case store_call db of
             (True, db') \<Rightarrow> (Inl StoreFailure, db')
           | (False, db') \<Rightarrow> (Inr (d, rest), db')))"

definition attempts_ReadDocument :: "key \<Rightarrow> Database \<Rightarrow> (error + VerificationAttempt) \<times> Database" where
  "attempts_ReadDocument k db =
     (case store_call db of
        (True, db') \<Rightarrow> (Inl StoreFailure, db')
      | (False, db') \<Rightarrow>
          (case lookup (verification_attempts db') k of
             None \<Rightarrow> (Inl NotFound, db')
           | Some a \<Rightarrow> (Inr a, db')))"

definition attempts_DeleteDocument :: "key \<Rightarrow> Database \<Rightarrow> error option \<times> Database" where
  "attempts_DeleteDocument k db =
     (case store_call db of
        (True, db') \<Rightarrow> (Some StoreFailure, db')
      | (False, db') \<Rightarrow>
          (case lookup (verification_attempts db') k of
             None \<Rightarrow> (Some NotFound, db')
           | Some a \<Rightarrow> (None, db'\<lparr>verification_attempts := (verification_attempts db')[k := None]\<rparr>)))"

definition users_CreateDocument :: "User \<Rightarrow> Database \<Rightarrow> (error + key) \<times> Database" where
  "users_CreateDocument user db =
     (case store_call db of
        (True, db') \<Rightarrow> (Inl StoreFailure, db')
      | (False, db') \<Rightarrow>
          (Inr (length (users db')), db'\<lparr>users := users db' @ [Some user]\<rparr>))"

definition contacts_CreateDocument :: "ContactEdge \<Rightarrow> Database \<Rightarrow> (error + key) \<times> Database" where
  "contacts_CreateDocument edge db =
     (case store_call db of
        (True, db') \<Rightarrow> (Inl StoreFailure, db')
      | (False, db') \<Rightarrow>
          (Inr (length (contacts db')), db'\<lparr>contacts := contacts db' @ [Some edge]\<rparr>))"

definition contacts_UpdateDocument :: "key \<Rightarrow> ContactEdge \<Rightarrow> Database \<Rightarrow> error option \<times> Database" where
  "contacts_UpdateDocument k edge db =
     (case store_call db of
        (True, db') \<Rightarrow> (Some StoreFailure, db')
      | (False, db') \<Rightarrow>
          (case lookup (contacts db') k of
             None \<Rightarrow> (Some NotFound, db')
           | Some old \<Rightarrow> (None, db'\<lparr>contacts := (contacts db')[k := Some edge]\<rparr>)))"

text \<open>\<open>FOR u IN users FILTER u.number == @number LIMIT 1 RETURN u\<close>\<close>

definition users_by_number_Query :: "string \<Rightarrow> Database \<Rightarrow> (error + (key \<times> User) cursor) \<times> Database" where
  "users_by_number_Query number db =
     (case store_call db of
        (True, db') \<Rightarrow> (Inl StoreFailure, db')
      | (False, db') \<Rightarrow>
          (Inr (take 1 (filter (\<lambda>(k, u). User.Number u = number) (documents (users db')))), db'))"

text \<open>\<open>FOR c IN contacts FILTER c._from == @from AND c._to == @to LIMIT 1 RETURN c\<close>\<close>

definition contacts_between_Query ::
  "handle \<Rightarrow> handle \<Rightarrow> Database \<Rightarrow> (error + (key \<times> ContactEdge) cursor) \<times> Database" where
  "contacts_between_Query from to db =
     (case store_call db of
        (True, db') \<Rightarrow> (Inl StoreFailure, db')
      | (False, db') \<Rightarrow>
          (Inr (take 1 (filter (\<lambda>(k, c). From c = from \<and> To c = to) (documents (contacts db')))), db'))"

text \<open>
  \<open>FOR v, e in 1..1 OUTBOUND @user contacts RETURN { name: e.name, user_key: v._key }\<close>:
  one row for every edge that leaves \<open>@user\<close>; \<open>v\<close> is the document behind the edge's
  \<open>_to\<close> handle, or null when there is none.
\<close>

definition vertex_key :: "Database \<Rightarrow> handle \<Rightarrow> key option" where
  "vertex_key db h =
     (case h of (col, k) \<Rightarrow>
        if col = ''users'' then map_option (\<lambda>_. k) (lookup (users db) k)
        else if col = ''contacts'' then map_option (\<lambda>_. k) (lookup (contacts db) k)
        else if col = ''verification_attempts'' then map_option (\<lambda>_. k) (lookup (verification_attempts db) k)
        else None)"

definition outbound_Query :: "handle \<Rightarrow> Database \<Rightarrow> (error + GetContactsResult cursor) \<times> Database" where
  "outbound_Query user db =
     (case store_call db of
        (True, db') \<Rightarrow> (Inl StoreFailure, db')
      | (False, db') \<Rightarrow>
          (Inr (map (\<lambda>(k, e). \<lparr>GetContactsResult.Name = ContactEdge.Name e, UserKey = vertex_key db' (To e)\<rparr>)
                  (filter (\<lambda>(k, e). From e = user) (documents (contacts db')))), db'))"

subsection \<open>External libraries\<close>

text \<open>
  The phone number library and the token library are not part of the repository; the
  handlers are modelled for every behaviour of theirs. \<open>Parse\<close> returns \<open>None\<close> for a
  number it cannot parse; \<open>Format\<close> is the E.164 rendering.
\<close>

record 'pn phonenumbers =
  ToUpper :: "string \<Rightarrow> string"
  Parse :: "string \<Rightarrow> string \<Rightarrow> 'pn option"
  IsValidNumberForRegion :: "'pn \<Rightarrow> string \<Rightarrow> bool"
  Format :: "'pn \<Rightarrow> string"

record MapClaims =
  claim_exp :: int
  claim_iat :: int
  claim_nbf :: int
  claim_user_key :: "key option"

record Token =
  Valid :: bool
  Claims :: MapClaims

text \<open>
  \<open>SignedString claims secret\<close> signs a token; \<open>Parse now tokenString secret\<close> checks
  signature and expiry and returns the token, or \<open>None\<close> for the library's error.
\<close>

record jwt =
  SignedString :: "MapClaims \<Rightarrow> string \<Rightarrow> string option"
  Parse :: "instant \<Rightarrow> string \<Rightarrow> string \<Rightarrow> Token option"

section \<open>Verification attempts\<close>

definition VerificationExpiryTime :: int where
  "VerificationExpiryTime = 60 * 1000000000 * 5"

definition JWTSecret :: string where
  "JWTSecret = ''MyAwesomeSecretForJWT''"

text \<open>
  \<open>VerifyCode\<close> returns Go's pair of the verdict and the error. Both calls of
  \<open>DeleteDocument\<close> drop what the store returns.
\<close>

definition VerifyCode ::
  "instant \<Rightarrow> Database \<Rightarrow> VerificationAttempt \<Rightarrow> string \<Rightarrow> (bool \<times> error option) \<times> Database" where
  "VerifyCode now db attempt code =
     (if now > CreatedAt attempt + VerificationExpiryTime then
        (case attempts_DeleteDocument (Key attempt) db of
           (_, db') \<Rightarrow> ((False, None), db'))
      else if VerificationAttempt.Code attempt = code then
        (case attempts_DeleteDocument (Key attempt) db of
           (_, db') \<Rightarrow> ((True, None), db'))
      else ((False, None), db))"

section \<open>Identity resolution\<close>

definition CreateUser :: "Database \<Rightarrow> string \<Rightarrow> (error + key) \<times> Database" where
  "CreateUser db number = users_CreateDocument \<lparr>User.Number = number\<rparr> db"

definition GetOrCreateUser :: "Database \<Rightarrow> string \<Rightarrow> (error + key) \<times> Database" where
  "GetOrCreateUser db number =
     (case users_by_number_Query number db of
        (Inl err, db1) \<Rightarrow> (Inl err, db1)
      | (Inr cur, db1) \<Rightarrow>
          if HasMore cur then
            (case cursor_ReadDocument cur db1 of
               (Inl err, db2) \<Rightarrow> (Inl err, db2)
             | (Inr ((meta_key, usr), _), db2) \<Rightarrow> (Inr meta_key, db2))
          else CreateUser db1 number)"

section \<open>Sessions\<close>

definition Unix :: "instant \<Rightarrow> int" where
  "Unix t = t div 1000000000"

definition GenerateJWT :: "jwt \<Rightarrow> instant \<Rightarrow> key \<Rightarrow> string option" where
  "GenerateJWT J now userKey =
     SignedString J
       \<lparr>claim_exp = Unix (now + 3600 * 1000000000 * 24 * 30),
        claim_iat = Unix now,
        claim_nbf = Unix now,
        claim_user_key = Some userKey\<rparr>
       JWTSecret"

text \<open>
  The middleware of the \<open>/api\<close> group: it answers the request itself, passes it on with the
  token's \<open>user_key\<close> claim as the local \<open>userKey\<close>, or panics. \<open>authHeader[7:]\<close> is a
  slice expression, which panics when the string is shorter than 7 bytes.
\<close>

datatype middleware = Respond response | Next "key option"

definition AuthMiddleware :: "jwt \<Rightarrow> instant \<Rightarrow> string \<Rightarrow> middleware" where
  "AuthMiddleware J now authHeader =
     (if authHeader = [] then Respond (JSON 401 (Error ''Missing authorization header''))
      else if length authHeader < 7 then Respond Panic
      else
        (case jwt.Parse J now (drop 7 authHeader) JWTSecret of
           None \<Rightarrow> Respond (JSON 401 (Error ''Invalid or expired token''))
         | Some token \<Rightarrow>
             if \<not> Valid token then Respond (JSON 401 (Error ''Invalid or expired token''))
             else Next (claim_user_key (Claims token))))"

section \<open>Handlers\<close>

definition VerifyRequestHandler ::
  "jwt \<Rightarrow> instant \<Rightarrow> VerifyRequest option \<Rightarrow> Database \<Rightarrow> response \<times> Database" where
  "VerifyRequestHandler J now body db =
     (case body of
        None \<Rightarrow> (JSON 400 (Error ''Invalid request''), db)
      | Some req \<Rightarrow>
          (case attempts_ReadDocument (AttemptKey req) db of
             (Inl err, db1) \<Rightarrow> (JSON 500 (Error ''Failed to verify code''), db1)
           | (Inr loaded, db1) \<Rightarrow>
               (case VerifyCode now db1 (loaded\<lparr>Key := AttemptKey req\<rparr>) (VerifyRequest.Code req) of
                  ((valid, Some err), db2) \<Rightarrow> (JSON 500 (Error ''Failed to verify code''), db2)
                | ((valid, None), db2) \<Rightarrow>
                    if \<not> valid then (JSON 400 (Error ''Invalid or expired verification code''), db2)
                    else
                      (case GetOrCreateUser db2 (VerificationAttempt.Number loaded) of
                         (Inl err, db3) \<Rightarrow> (JSON 500 (Error ''Failed to log in to user account''), db3)
                       | (Inr userKey, db3) \<Rightarrow>
                           (case GenerateJWT J now userKey of
                              None \<Rightarrow> (JSON 500 (Error ''Failed to log in to user account''), db3)
                            | Some token \<Rightarrow>
                                (JSON 200 (MessageToken ''User verified and created successfully'' token), db3))))))"

text \<open>
  One round of the loop over the submitted contacts: \<open>Some r\<close> when the handler returns
  the response \<open>r\<close> from inside the loop, \<open>None\<close> when the loop goes on to the next contact.
\<close>

definition add_contact ::
  "'pn phonenumbers \<Rightarrow> key \<Rightarrow> Contact \<Rightarrow> Database \<Rightarrow> response option \<times> Database" where
  "add_contact L userKey contact db =
     (let countryCode = ToUpper L (CountryCode contact) in
      case phonenumbers.Parse L (Contact.Number contact) countryCode of
        None \<Rightarrow> (Some (JSON 400 (Error ''Invalid phone number'')), db)
      | Some number \<Rightarrow>
          if \<not> IsValidNumberForRegion L number countryCode then (None, db)
          else
            (case GetOrCreateUser db (Format L number) of
               (Inl err, db1) \<Rightarrow> (Some (JSON 500 (Error ''Failed to create contact relationship'')), db1)
             | (Inr contactUserKey, db1) \<Rightarrow>
                 (case contacts_between_Query (users_handle userKey) (users_handle contactUserKey) db1 of
                    (Inl err, db2) \<Rightarrow> (Some (JSON 500 (Error ''Failed to check existing contacts'')), db2)
                  | (Inr cur, db2) \<Rightarrow>
                      if HasMore cur then
                        (case cursor_ReadDocument cur db2 of
                           (Inl err, db3) \<Rightarrow> (Some (JSON 500 (Error ''Failed to read existing contact'')), db3)
                         | (Inr ((meta_key, existingEdge), _), db3) \<Rightarrow>
                             if ContactEdge.Name existingEdge \<noteq> Contact.Name contact then
                               (case contacts_UpdateDocument meta_key
                                       (existingEdge\<lparr>ContactEdge.Name := Contact.Name contact\<rparr>) db3 of
                                  (Some err, db4) \<Rightarrow> (Some (JSON 500 (Error ''Failed to update contact name'')), db4)
                                | (None, db4) \<Rightarrow> (None, db4))
                             else (None, db3))
                      else
                        (case contacts_CreateDocument
                                \<lparr>From = users_handle userKey, To = users_handle contactUserKey,
                                 Name = Contact.Name contact\<rparr> db2 of
                           (Inl err, db3) \<Rightarrow> (Some (JSON 500 (Error ''Failed to create contact relationship'')), db3)
                         | (Inr _, db3) \<Rightarrow> (None, db3)))))"

fun add_contacts_loop ::
  "'pn phonenumbers \<Rightarrow> key \<Rightarrow> Contact list \<Rightarrow> Database \<Rightarrow> response \<times> Database" where
  "add_contacts_loop L userKey [] db = (JSON 200 (Message ''Contacts added''), db)"
| "add_contacts_loop L userKey (contact # rest) db =
     (case add_contact L userKey contact db of
        (Some r, db') \<Rightarrow> (r, db')
      | (None, db') \<Rightarrow> add_contacts_loop L userKey rest db')"

text \<open>
  The handlers of the \<open>/api\<close> group take the local \<open>userKey\<close> that the middleware stored
  (\<open>None\<close> when the claim is not a string, on which the type assertion panics) and the
  parsed body (\<open>None\<close> when the body does not parse).
\<close>

definition AddContactsHandler ::
  "'pn phonenumbers \<Rightarrow> key option \<Rightarrow> Contact list option \<Rightarrow> Database \<Rightarrow> response \<times> Database" where
  "AddContactsHandler L locals body db =
     (case body of
        None \<Rightarrow> (JSON 400 (Error ''Invalid request body''), db)
      | Some request_contacts \<Rightarrow>
          (case locals of
             None \<Rightarrow> (Panic, db)
           | Some userKey \<Rightarrow> add_contacts_loop L userKey request_contacts db))"

text \<open>
  The loop that drains the cursor of the contact listing. The source appends to a nil slice,
  so a listing without rows is encoded as null; the model writes it as the empty list.
\<close>

fun read_contacts ::
  "GetContactsResult cursor \<Rightarrow> GetContactsResult list \<Rightarrow> Database \<Rightarrow> response \<times> Database" where
  "read_contacts [] result db = (JSON 200 (ContactList result), db)"
| "read_contacts (d # rest) result db =
     (case cursor_ReadDocument (d # rest) db of
        (Inl err, db') \<Rightarrow> (JSON 500 (Error ''Failed to read contact''), db')
      | (Inr (contact, cur), db') \<Rightarrow> read_contacts rest (result @ [contact]) db')"

definition GetContactsHandler ::
  "key option \<Rightarrow> GetContactsRequest option \<Rightarrow> Database \<Rightarrow> response \<times> Database" where
  "GetContactsHandler locals body db =
     (case body of
        None \<Rightarrow> (JSON 400 (Error ''Invalid request body''), db)
      | Some request \<Rightarrow>
          (case outbound_Query (users_handle (GetContactsRequest.UserKey request)) db of
             (Inl err, db1) \<Rightarrow> (JSON 500 (Error ''Failed to get contacts''), db1)
           | (Inr cur, db1) \<Rightarrow> read_contacts cur [] db1))"

text \<open>
  A route of the \<open>/api\<close> group: the middleware runs first, and the handler only when the
  middleware passes the request on.
\<close>

definition api_route ::
  "jwt \<Rightarrow> instant \<Rightarrow> string \<Rightarrow> (key option \<Rightarrow> Database \<Rightarrow> response \<times> Database) \<Rightarrow> Database
     \<Rightarrow> response \<times> Database" where
  "api_route J now authHeader handler db =
     (case AuthMiddleware J now authHeader of
        Respond r \<Rightarrow> (r, db)
      | Next locals \<Rightarrow> handler locals db)"

section \<open>Reading the state\<close>

text \<open>
  The edges that the store holds from one handle to another, in store order, and the ordered
  pair of endpoints of every edge. The data model intends at most one edge for every ordered
  pair, which is \<open>distinct (edge_pairs db)\<close>.
\<close>

definition edges_between :: "Database \<Rightarrow> handle \<Rightarrow> handle \<Rightarrow> ContactEdge list" where
  "edges_between db from to =
     map snd (filter (\<lambda>(k, c). From c = from \<and> To c = to) (documents (contacts db)))"

definition edge_pairs :: "Database \<Rightarrow> (handle \<times> handle) list" where
  "edge_pairs db = map (\<lambda>(k, c). (From c, To c)) (documents (contacts db))"

text \<open>
  The specification's reader of the graph, in its own words: every outbound edge of the
  owner at one hop, projected to the edge's name and the key of the far endpoint.
\<close>

definition listContacts :: "Database \<Rightarrow> key \<Rightarrow> GetContactsResult list" where
  "listContacts db ownerKey =
     map (\<lambda>e. \<lparr>GetContactsResult.Name = ContactEdge.Name e, UserKey = vertex_key db (To e)\<rparr>)
       (filter (\<lambda>e. From e = users_handle ownerKey) (map snd (documents (contacts db))))"

section \<open>Worked examples\<close>

text \<open>
  Stand-ins for the two libraries and three small databases, on which the theorems below are
  instantiated. The token library signs every token as \<open>signed\<close> and reads it back as the
  token of user 0; the number library accepts every non-empty number and holds it valid for
  region SE only.
\<close>

definition sample_jwt :: jwt where
  "sample_jwt =
     \<lparr>SignedString = (\<lambda>claims secret. Some ''signed''),
      Parse = (\<lambda>now tokenString secret.
         if tokenString = ''signed''
         then Some \<lparr>Valid = True,
                    Claims = \<lparr>claim_exp = 1, claim_iat = 0, claim_nbf = 0, claim_user_key = Some 0\<rparr>\<rparr>
         else None)\<rparr>"

definition sample_numbers :: "string phonenumbers" where
  "sample_numbers =
     \<lparr>ToUpper = map (\<lambda>ch. if ch = CHR ''s'' then CHR ''S'' else if ch = CHR ''e'' then CHR ''E'' else ch),
      Parse = (\<lambda>raw region. if raw = [] then None else Some raw),
      IsValidNumberForRegion = (\<lambda>number region. region = ''SE''),
      Format = (\<lambda>number. ''+46'' @ number)\<rparr>"

definition sample_attempt :: VerificationAttempt where
  "sample_attempt = \<lparr>Key = 0, Number = ''+46701234567'', Code = ''123456'', CreatedAt = 0\<rparr>"

definition sample_db :: Database where
  "sample_db =
     \<lparr>users = [], contacts = [], verification_attempts = [Some sample_attempt], faults = []\<rparr>"

definition sample_verified :: Database where
  "sample_verified =
     \<lparr>users = [Some \<lparr>User.Number = ''+46701234567''\<rparr>], contacts = [],
      verification_attempts = [None], faults = []\<rparr>"

definition sample_graph :: Database where
  "sample_graph =
     \<lparr>users = [Some \<lparr>User.Number = ''+46700000000''\<rparr>, Some \<lparr>User.Number = ''+46700000001''\<rparr>,
               Some \<lparr>User.Number = ''+46700000002''\<rparr>],
      contacts = [Some \<lparr>From = users_handle 1, To = users_handle 2, Name = ''Bob''\<rparr>],
      verification_attempts = [],
      faults = []\<rparr>"

definition sample_contact :: Contact where
  "sample_contact = \<lparr>CountryCode = ''se'', Number = ''700000002'', Name = ''Bob''\<rparr>"

section \<open>Facts about the store\<close>

lemma store_call_healthy: "faults db = [] \<Longrightarrow> store_call db = (False, db)"
  by (simp add: store_call_def)

lemma store_call_fields [simp]:
  "users (snd (store_call db)) = users db"
  "contacts (snd (store_call db)) = contacts db"
  "verification_attempts (snd (store_call db)) = verification_attempts db"
  by (simp_all add: store_call_def split: list.splits)

lemma lookup_Nil [simp]: "lookup [] k = None"
  by (simp add: lookup_def)

lemma lookup_Cons_0 [simp]: "lookup (x # c) 0 = x"
  by (simp add: lookup_def)

lemma lookup_Cons_Suc [simp]: "lookup (x # c) (Suc j) = lookup c j"
  by (simp add: lookup_def)

lemma lookup_update_same: "lookup (c[k := v]) k = (if k < length c then v else None)"
  by (simp add: lookup_def)

lemma lookup_Some_less: "lookup c k = Some a \<Longrightarrow> k < length c"
  by (simp add: lookup_def split: if_splits)

lemma documents_from_snoc:
  "documents_from i (c @ [Some d]) = documents_from i c @ [(i + length c, d)]"
proof (induction c arbitrary: i)
  case Nil
  show ?case by simp
next
  case (Cons x c)
  then show ?case by (cases x) simp_all
qed

lemma documents_snoc: "documents (c @ [Some d]) = documents c @ [(length c, d)]"
  by (simp add: documents_def documents_from_snoc)

text \<open>The documents a query enumerates are exactly the filled slots, each under its key.\<close>

lemma documents_from_lookup:
  "(k, d) \<in> set (documents_from i c) \<longleftrightarrow> (\<exists>j. k = i + j \<and> lookup c j = Some d)"
proof (induction c arbitrary: i)
  case Nil
  show ?case by simp
next
  case (Cons x c)
  have split: "(\<exists>j. k = i + j \<and> lookup (x # c) j = Some d) \<longleftrightarrow>
      (k = i \<and> x = Some d) \<or> (\<exists>j. k = Suc i + j \<and> lookup c j = Some d)"
    (is "?L \<longleftrightarrow> ?R")
  proof
    assume ?L
    then obtain j where j: "k = i + j" "lookup (x # c) j = Some d" by blast
    then show ?R by (cases j) auto
  next
    assume ?R
    then show ?L
    proof
      assume "k = i \<and> x = Some d"
      then have "k = i + 0 \<and> lookup (x # c) 0 = Some d" by simp
      then show ?L by blast
    next
      assume "\<exists>j. k = Suc i + j \<and> lookup c j = Some d"
      then obtain j where "k = Suc i + j" "lookup c j = Some d" by blast
      then have "k = i + Suc j \<and> lookup (x # c) (Suc j) = Some d" by simp
      then show ?L by blast
    qed
  qed
  show ?case
  proof (cases x)
    case None
    then show ?thesis using Cons[of "Suc i"] split by auto
  next
    case (Some y)
    then show ?thesis using Cons[of "Suc i"] split by auto
  qed
qed

lemma documents_lookup: "(k, d) \<in> set (documents c) \<longleftrightarrow> lookup c k = Some d"
  by (simp add: documents_def documents_from_lookup)

lemma documents_from_update:
  assumes "lookup c j = Some old"
  shows "documents_from i (c[j := Some new]) =
     map (\<lambda>(k, d). if k = i + j then (k, new) else (k, d)) (documents_from i c)"
  using assms
proof (induction c arbitrary: i j)
  case Nil
  then show ?case by simp
next
  case (Cons x c)
  show ?case
  proof (cases j)
    case 0
    have later: "\<forall>p \<in> set (documents_from (Suc i) c). fst p \<noteq> i"
      by (auto simp: documents_from_lookup)
    have "map (\<lambda>(k, d). if k = i then (k, new) else (k, d)) (documents_from (Suc i) c)
        = documents_from (Suc i) c"
      using later by (intro map_idI) auto
    then show ?thesis using 0 Cons.prems by simp
  next
    case (Suc j')
    then have "lookup c j' = Some old" using Cons.prems by simp
    from Cons.IH[OF this, of "Suc i"] show ?thesis
      using Suc by (cases x) simp_all
  qed
qed

lemma documents_update:
  "lookup c j = Some old \<Longrightarrow>
     documents (c[j := Some new]) = map (\<lambda>(k, d). if k = j then (k, new) else (k, d)) (documents c)"
  by (simp add: documents_def documents_from_update)

lemma attempts_ReadDocument_healthy:
  "faults db = [] \<Longrightarrow> lookup (verification_attempts db) k = Some a \<Longrightarrow>
     attempts_ReadDocument k db = (Inr a, db)"
  by (simp add: attempts_ReadDocument_def store_call_healthy)

lemma attempts_DeleteDocument_healthy:
  "faults db = [] \<Longrightarrow> lookup (verification_attempts db) k = Some a \<Longrightarrow>
     attempts_DeleteDocument k db
       = (None, db\<lparr>verification_attempts := (verification_attempts db)[k := None]\<rparr>)"
  by (simp add: attempts_DeleteDocument_def store_call_healthy)

section \<open>Identity resolution\<close>

lemma GetOrCreateUser_healthy:
  assumes "faults db = []"
  shows "GetOrCreateUser db n =
    (case filter (\<lambda>(k, u). User.Number u = n) (documents (users db)) of
       [] \<Rightarrow> (Inr (length (users db)), db\<lparr>users := users db @ [Some \<lparr>User.Number = n\<rparr>]\<rparr>)
     | (k, u) # _ \<Rightarrow> (Inr k, db))"
  using assms
  by (auto simp: GetOrCreateUser_def users_by_number_Query_def store_call_healthy HasMore_def
      cursor_ReadDocument_def CreateUser_def users_CreateDocument_def split: list.splits)

lemma GetOrCreateUser_resolves:
  assumes "faults db = []"
  shows "\<exists>k db1 usr rest. GetOrCreateUser db n = (Inr k, db1) \<and> faults db1 = []
            \<and> contacts db1 = contacts db
            \<and> filter (\<lambda>(k, u). User.Number u = n) (documents (users db1)) = (k, usr) # rest"
proof (cases "filter (\<lambda>(k, u). User.Number u = n) (documents (users db))")
  case Nil
  then show ?thesis using assms
    by (simp add: GetOrCreateUser_healthy documents_snoc)
next
  case (Cons p ps)
  then show ?thesis using assms
    by (cases p) (simp add: GetOrCreateUser_healthy)
qed

lemma GetOrCreateUser_again:
  assumes "faults db = []"
    and "filter (\<lambda>(k, u). User.Number u = n) (documents (users db)) = (k, usr) # rest"
  shows "GetOrCreateUser db n = (Inr k, db)"
  using assms by (simp add: GetOrCreateUser_healthy)

lemma GetOrCreateUser_contacts: "contacts (snd (GetOrCreateUser db n)) = contacts db"
proof -
  obtain f db' where sc: "store_call db = (f, db')" by (cases "store_call db")
  then have c': "contacts db' = contacts db"
    using store_call_fields(2)[of db] by simp
  obtain g db'' where sc': "store_call db' = (g, db'')" by (cases "store_call db'")
  then have c'': "contacts db'' = contacts db'"
    using store_call_fields(2)[of db'] by simp
  show ?thesis
    using sc sc' c' c''
    by (auto simp: GetOrCreateUser_def users_by_number_Query_def HasMore_def cursor_ReadDocument_def
        CreateUser_def users_CreateDocument_def split: list.splits bool.splits prod.splits)
qed

lemma store_call_cases:
  obtains db' where "store_call db = (False, db')" "users db' = users db" "contacts db' = contacts db"
      "verification_attempts db' = verification_attempts db"
  | db' where "store_call db = (True, db')"
  by (cases "store_call db"; cases "fst (store_call db)")
     (use store_call_fields[of db] in auto)

text \<open>
  Whatever the store does: a call that returns a key leaves a user with the number under
  that key as the first match, and a call on such a database returns that key and leaves
  the users alone.
\<close>

lemma GetOrCreateUser_returned:
  assumes "GetOrCreateUser db n = (Inr k, db1)"
  shows "\<exists>usr rest. filter (\<lambda>(k, u). User.Number u = n) (documents (users db1)) = (k, usr) # rest"
proof -
  obtain d1 where q: "store_call db = (False, d1)" and u1: "users d1 = users db"
    using assms by (cases db rule: store_call_cases)
      (auto simp: GetOrCreateUser_def users_by_number_Query_def)
  show ?thesis
  proof (cases "filter (\<lambda>(k, u). User.Number u = n) (documents (users db))")
    case Nil
    then obtain d2 where "store_call d1 = (False, d2)" and "users d2 = users d1"
      and "db1 = d2\<lparr>users := users d2 @ [Some \<lparr>User.Number = n\<rparr>]\<rparr>" and "k = length (users d2)"
      using assms q u1
      by (cases d1 rule: store_call_cases)
        (auto simp: GetOrCreateUser_def users_by_number_Query_def HasMore_def CreateUser_def
          users_CreateDocument_def)
    then show ?thesis using Nil u1 by (simp add: documents_snoc)
  next
    case (Cons p ps)
    obtain k0 u0 where p: "p = (k0, u0)" by (cases p)
    then obtain d2 where "store_call d1 = (False, d2)" and "users d2 = users d1"
      and "db1 = d2" and "k = k0"
      using assms q u1 Cons
      by (cases d1 rule: store_call_cases)
        (auto simp: GetOrCreateUser_def users_by_number_Query_def HasMore_def cursor_ReadDocument_def)
    then show ?thesis using Cons p u1 by simp
  qed
qed

lemma GetOrCreateUser_found:
  assumes "filter (\<lambda>(k, u). User.Number u = n) (documents (users db)) = (k, usr) # rest"
    and "GetOrCreateUser db n = (Inr k', db2)"
  shows "k' = k \<and> users db2 = users db"
proof -
  obtain d1 where q: "store_call db = (False, d1)" and u1: "users d1 = users db"
    using assms(2) by (cases db rule: store_call_cases)
      (auto simp: GetOrCreateUser_def users_by_number_Query_def)
  obtain d2 where "store_call d1 = (False, d2)" and "users d2 = users d1"
      and "db2 = d2" and "k' = k"
    using assms q u1
    by (cases d1 rule: store_call_cases)
      (auto simp: GetOrCreateUser_def users_by_number_Query_def HasMore_def cursor_ReadDocument_def)
  then show ?thesis using u1 by simp
qed

lemma resolve_same_key:
  assumes "GetOrCreateUser db n = (Inr k, db1)" and "GetOrCreateUser db1 n = (Inr k', db2)"
  shows "k' = k \<and> users db2 = users db1 \<and> lookup (users db1) k = Some \<lparr>User.Number = n\<rparr>"
proof -
  obtain usr rest where f: "filter (\<lambda>(k, u). User.Number u = n) (documents (users db1)) = (k, usr) # rest"
    using GetOrCreateUser_returned[OF assms(1)] by blast
  then have "(k, usr) \<in> set (filter (\<lambda>(k, u). User.Number u = n) (documents (users db1)))"
    by simp
  then have "lookup (users db1) k = Some usr" and "User.Number usr = n"
    by (simp_all add: documents_lookup)
  then have "lookup (users db1) k = Some \<lparr>User.Number = n\<rparr>"
    by (cases usr) simp
  then show ?thesis using GetOrCreateUser_found[OF f assms(2)] by simp
qed

text \<open>
  C9. On a store that answers its calls, two calls of \<open>GetOrCreateUser\<close> for the same
  number, one after the other, return the same key; the second call leaves the database as
  the first one left it, and the key is that of a user document holding the number.
\<close>

theorem resolve_idempotent:
  assumes "faults db = []"
  shows "\<exists>k db1. GetOrCreateUser db n = (Inr k, db1) \<and> GetOrCreateUser db1 n = (Inr k, db1)
            \<and> lookup (users db1) k = Some \<lparr>User.Number = n\<rparr>"
proof (cases "filter (\<lambda>(k, u). User.Number u = n) (documents (users db))")
  case Nil
  let ?db1 = "db\<lparr>users := users db @ [Some \<lparr>User.Number = n\<rparr>]\<rparr>"
  have 1: "GetOrCreateUser db n = (Inr (length (users db)), ?db1)"
    using assms Nil by (simp add: GetOrCreateUser_healthy)
  have f: "faults ?db1 = []" using assms by simp
  have 2: "GetOrCreateUser ?db1 n = (Inr (length (users db)), ?db1)"
    using Nil by (simp add: GetOrCreateUser_healthy[OF f] documents_snoc)
  have 3: "lookup (users ?db1) (length (users db)) = Some \<lparr>User.Number = n\<rparr>"
    by (simp add: lookup_def)
  from 1 2 3 show ?thesis by blast
next
  case (Cons p ps)
  obtain k u where p: "p = (k, u)" by (cases p)
  have "(k, u) \<in> set (filter (\<lambda>(k, u). User.Number u = n) (documents (users db)))"
    using Cons p by simp
  then have "User.Number u = n" and "lookup (users db) k = Some u"
    by (simp_all add: documents_lookup)
  moreover have "GetOrCreateUser db n = (Inr k, db)"
    using assms Cons p by (simp add: GetOrCreateUser_healthy)
  ultimately show ?thesis by auto
qed

text \<open>
  The theorem on the sample database, which has no user yet: the first call creates user 0,
  the second finds it.
\<close>

theorem resolve_idempotent_witness:
  "faults sample_db = []
   \<and> (\<exists>k db1. GetOrCreateUser sample_db ''+46701234567'' = (Inr k, db1)
         \<and> GetOrCreateUser db1 ''+46701234567'' = (Inr k, db1)
         \<and> lookup (users db1) k = Some \<lparr>User.Number = ''+46701234567''\<rparr>)"
  using resolve_idempotent[of sample_db "''+46701234567''"]
  by (simp add: sample_db_def)

section \<open>Verification attempts\<close>

text \<open>
  C3. Let an attempt be stored under key \<open>k\<close>, on a store that answers its calls. A
  verification later than five minutes after the attempt's creation is refused whatever the
  code, and the attempt is gone afterwards; the handler answers 400. A verification with the
  stored code at or before five minutes after creation is accepted.
\<close>

theorem expiry_consumes:
  assumes stored: "lookup (verification_attempts db) k = Some a"
    and healthy: "faults db = []"
    and expired: "CreatedAt a + 5 * 60 * 1000000000 < late"
    and in_time: "early \<le> CreatedAt a + 5 * 60 * 1000000000"
  shows "fst (VerifyCode late db (a\<lparr>Key := k\<rparr>) code) = (False, None)
       \<and> lookup (verification_attempts (snd (VerifyCode late db (a\<lparr>Key := k\<rparr>) code))) k = None
       \<and> fst (VerifyRequestHandler J late (Some \<lparr>AttemptKey = k, Code = code\<rparr>) db)
           = JSON 400 (Error ''Invalid or expired verification code'')
       \<and> lookup (verification_attempts
             (snd (VerifyRequestHandler J late (Some \<lparr>AttemptKey = k, Code = code\<rparr>) db))) k = None
       \<and> fst (VerifyCode early db (a\<lparr>Key := k\<rparr>) (VerificationAttempt.Code a)) = (True, None)"
proof -
  let ?gone = "db\<lparr>verification_attempts := (verification_attempts db)[k := None]\<rparr>"
  have len: "k < length (verification_attempts db)"
    using stored by (rule lookup_Some_less)
  have del: "attempts_DeleteDocument k db = (None, ?gone)"
    using healthy stored by (rule attempts_DeleteDocument_healthy)
  have rd: "attempts_ReadDocument k db = (Inr a, db)"
    using healthy stored by (rule attempts_ReadDocument_healthy)
  have too_late: "VerifyCode late db (a\<lparr>Key := k\<rparr>) code = ((False, None), ?gone)"
    using expired del by (simp add: VerifyCode_def VerificationExpiryTime_def)
  have gone: "lookup (verification_attempts ?gone) k = None"
    using len by (simp add: lookup_update_same)
  have handler: "VerifyRequestHandler J late (Some \<lparr>AttemptKey = k, Code = code\<rparr>) db
      = (JSON 400 (Error ''Invalid or expired verification code''), ?gone)"
    using too_late rd by (simp add: VerifyRequestHandler_def)
  have accepted: "fst (VerifyCode early db (a\<lparr>Key := k\<rparr>) (VerificationAttempt.Code a)) = (True, None)"
    using in_time del by (simp add: VerifyCode_def VerificationExpiryTime_def)
  show ?thesis
    using too_late handler gone accepted by simp
qed

text \<open>
  The sample attempt was created at instant 0: one second past the five minutes it is
  refused and removed, at four minutes and 59 seconds it is accepted.
\<close>

theorem expiry_consumes_witness:
  "lookup (verification_attempts sample_db) 0 = Some sample_attempt
   \<and> faults sample_db = []
   \<and> CreatedAt sample_attempt + 5 * 60 * 1000000000 < 301000000000
   \<and> (299000000000 :: int) \<le> CreatedAt sample_attempt + 5 * 60 * 1000000000
   \<and> fst (VerifyCode 301000000000 sample_db sample_attempt ''123456'') = (False, None)
   \<and> lookup (verification_attempts (snd (VerifyCode 301000000000 sample_db sample_attempt ''123456''))) 0
       = None
   \<and> fst (VerifyRequestHandler sample_jwt 301000000000 (Some \<lparr>AttemptKey = 0, Code = ''123456''\<rparr>)
            sample_db)
       = JSON 400 (Error ''Invalid or expired verification code'')
   \<and> fst (VerifyCode 299000000000 sample_db sample_attempt ''123456'') = (True, None)"
  using expiry_consumes[of sample_db 0 sample_attempt 301000000000 299000000000 "''123456''" sample_jwt]
  by (simp add: sample_db_def sample_attempt_def)

text \<open>
  C4. An attempt that has not expired and is verified with a code other than the stored one
  is refused, and neither \<open>VerifyCode\<close> nor the handler changes the database; a later
  verification with the stored code, still within the five minutes, is accepted.
\<close>

theorem mismatch_keeps_attempt:
  assumes stored: "lookup (verification_attempts db) k = Some a"
    and healthy: "faults db = []"
    and unexpired: "now \<le> CreatedAt a + 5 * 60 * 1000000000"
    and wrong: "code \<noteq> VerificationAttempt.Code a"
    and retry: "now' \<le> CreatedAt a + 5 * 60 * 1000000000"
  shows "VerifyCode now db (a\<lparr>Key := k\<rparr>) code = ((False, None), db)
       \<and> VerifyRequestHandler J now (Some \<lparr>AttemptKey = k, Code = code\<rparr>) db
           = (JSON 400 (Error ''Invalid or expired verification code''), db)
       \<and> fst (VerifyCode now' db (a\<lparr>Key := k\<rparr>) (VerificationAttempt.Code a)) = (True, None)"
proof -
  have rd: "attempts_ReadDocument k db = (Inr a, db)"
    using healthy stored by (rule attempts_ReadDocument_healthy)
  have miss: "VerifyCode now db (a\<lparr>Key := k\<rparr>) code = ((False, None), db)"
    using unexpired wrong by (auto simp add: VerifyCode_def VerificationExpiryTime_def)
  have handler: "VerifyRequestHandler J now (Some \<lparr>AttemptKey = k, Code = code\<rparr>) db
      = (JSON 400 (Error ''Invalid or expired verification code''), db)"
    using miss rd by (simp add: VerifyRequestHandler_def)
  have again: "fst (VerifyCode now' db (a\<lparr>Key := k\<rparr>) (VerificationAttempt.Code a)) = (True, None)"
    using retry by (simp add: VerifyCode_def VerificationExpiryTime_def split: prod.splits)
  show ?thesis using miss handler again by simp
qed

theorem mismatch_keeps_attempt_witness:
  "lookup (verification_attempts sample_db) 0 = Some sample_attempt
   \<and> faults sample_db = []
   \<and> (1 :: int) \<le> CreatedAt sample_attempt + 5 * 60 * 1000000000
   \<and> ''000000'' \<noteq> VerificationAttempt.Code sample_attempt
   \<and> (2 :: int) \<le> CreatedAt sample_attempt + 5 * 60 * 1000000000
   \<and> VerifyRequestHandler sample_jwt 1 (Some \<lparr>AttemptKey = 0, Code = ''000000''\<rparr>) sample_db
       = (JSON 400 (Error ''Invalid or expired verification code''), sample_db)
   \<and> fst (VerifyCode 2 sample_db sample_attempt ''123456'') = (True, None)"
  using mismatch_keeps_attempt[of sample_db 0 sample_attempt 1 "''000000''" 2 sample_jwt]
  by (simp add: sample_db_def sample_attempt_def)

text \<open>
  On a store that answers its calls, an accepted verification deletes the attempt.
\<close>

lemma accepted_attempt_is_deleted:
  assumes "lookup (verification_attempts db) k = Some a" and "faults db = []"
    and "now \<le> CreatedAt a + 5 * 60 * 1000000000"
  shows "VerifyCode now db (a\<lparr>Key := k\<rparr>) (VerificationAttempt.Code a)
           = ((True, None), db\<lparr>verification_attempts := (verification_attempts db)[k := None]\<rparr>)"
    and "lookup (verification_attempts
           (snd (VerifyCode now db (a\<lparr>Key := k\<rparr>) (VerificationAttempt.Code a)))) k = None"
proof -
  have del: "attempts_DeleteDocument k db
      = (None, db\<lparr>verification_attempts := (verification_attempts db)[k := None]\<rparr>)"
    using assms(2,1) by (rule attempts_DeleteDocument_healthy)
  show 1: "VerifyCode now db (a\<lparr>Key := k\<rparr>) (VerificationAttempt.Code a)
           = ((True, None), db\<lparr>verification_attempts := (verification_attempts db)[k := None]\<rparr>)"
    using assms(3) del by (simp add: VerifyCode_def VerificationExpiryTime_def)
  show "lookup (verification_attempts
           (snd (VerifyCode now db (a\<lparr>Key := k\<rparr>) (VerificationAttempt.Code a)))) k = None"
    using lookup_Some_less[OF assms(1)] by (simp add: 1 lookup_update_same)
qed

text \<open>
  A request for an attempt that the store does not hold is answered with status 500,
  whether the store fails or reports that the document is missing.
\<close>

lemma missing_attempt_is_500:
  assumes "lookup (verification_attempts db) k = None"
  shows "fst (VerifyRequestHandler J now (Some \<lparr>AttemptKey = k, Code = code\<rparr>) db)
           = JSON 500 (Error ''Failed to verify code'')"
proof -
  obtain f db' where sc: "store_call db = (f, db')" by (cases "store_call db")
  then have "verification_attempts db' = verification_attempts db"
    using store_call_fields(3)[of db] by simp
  then show ?thesis
    using assms sc by (cases f) (simp_all add: VerifyRequestHandler_def attempts_ReadDocument_def)
qed

text \<open>
  C2. The sample attempt is verified with its code: the handler answers 200 with a token and
  the attempt is deleted. The same request again does not find the attempt, and the handler
  answers with status 500 and the message of a failed verification, not with a
  not-found response.
\<close>

theorem second_verify_is_500:
  "VerifyRequestHandler sample_jwt 1 (Some \<lparr>AttemptKey = 0, Code = ''123456''\<rparr>) sample_db
     = (JSON 200 (MessageToken ''User verified and created successfully'' ''signed''), sample_verified)
   \<and> lookup (verification_attempts sample_verified) 0 = None
   \<and> attempts_ReadDocument 0 sample_verified = (Inl NotFound, sample_verified)
   \<and> VerifyRequestHandler sample_jwt 2 (Some \<lparr>AttemptKey = 0, Code = ''123456''\<rparr>) sample_verified
     = (JSON 500 (Error ''Failed to verify code''), sample_verified)"
  by code_simp

text \<open>
  C5. The sample attempt is verified with its code on a store that answers the read and
  fails the deletion. \<open>VerifyCode\<close> reports no error, the handler goes on to answer 200 with
  a token, and the attempt is still stored; the same request is accepted a second time.
\<close>

theorem failed_delete_is_ignored:
  "VerifyCode 1 (sample_db\<lparr>faults := [True]\<rparr>) sample_attempt ''123456''
     = ((True, None), sample_db)
   \<and> VerifyRequestHandler sample_jwt 1 (Some \<lparr>AttemptKey = 0, Code = ''123456''\<rparr>)
       (sample_db\<lparr>faults := [False, True]\<rparr>)
     = (JSON 200 (MessageToken ''User verified and created successfully'' ''signed''),
        sample_db\<lparr>users := [Some \<lparr>User.Number = ''+46701234567''\<rparr>]\<rparr>)
   \<and> lookup (verification_attempts (sample_db\<lparr>users := [Some \<lparr>User.Number = ''+46701234567''\<rparr>]\<rparr>)) 0
       = Some sample_attempt
   \<and> fst (VerifyRequestHandler sample_jwt 2 (Some \<lparr>AttemptKey = 0, Code = ''123456''\<rparr>)
       (sample_db\<lparr>users := [Some \<lparr>User.Number = ''+46701234567''\<rparr>]\<rparr>))
     = JSON 200 (MessageToken ''User verified and created successfully'' ''signed'')"
  by code_simp

section \<open>The middleware\<close>

lemma short_header_panics:
  "authHeader \<noteq> [] \<Longrightarrow> length authHeader < 7 \<Longrightarrow> AuthMiddleware J now authHeader = Respond Panic"
  by (simp add: AuthMiddleware_def)

lemma rejected_token_is_401:
  "7 \<le> length authHeader \<Longrightarrow> jwt.Parse J now (drop 7 authHeader) JWTSecret = None \<Longrightarrow>
     AuthMiddleware J now authHeader = Respond (JSON 401 (Error ''Invalid or expired token''))"
  by (auto simp: AuthMiddleware_def)

text \<open>
  C10. A request whose Authorization header is the six bytes \<open>Bearer\<close> is not answered with
  401: the slice expression \<open>authHeader[7:]\<close> is out of range and the middleware panics,
  whatever the token library and the handler behind it.
\<close>

theorem short_authorization_header_panics:
  "AuthMiddleware J now ''Bearer'' = Respond Panic
   \<and> api_route J now ''Bearer'' handler db = (Panic, db)"
  by (simp add: AuthMiddleware_def api_route_def)

section \<open>Adding contacts\<close>

lemma add_contact_skip:
  assumes "phonenumbers.Parse L (Contact.Number c) (ToUpper L (CountryCode c)) = Some pn"
    and "\<not> IsValidNumberForRegion L pn (ToUpper L (CountryCode c))"
  shows "add_contact L u c db = (None, db)"
  using assms by (simp add: add_contact_def)

lemma add_contact_unparseable:
  assumes "phonenumbers.Parse L (Contact.Number c) (ToUpper L (CountryCode c)) = None"
  shows "add_contact L u c db = (Some (JSON 400 (Error ''Invalid phone number'')), db)"
  using assms by (simp add: add_contact_def)

text \<open>
  A batch is worked off front to back: the loop reaches the second part of a batch exactly
  when it has come through the first part, in the state the first part left.
\<close>

lemma add_contacts_loop_append:
  "add_contacts_loop L u (xs @ ys) db =
     (case add_contacts_loop L u xs db of
        (r, db') \<Rightarrow>
          if r = JSON 200 (Message ''Contacts added'') then add_contacts_loop L u ys db' else (r, db'))"
proof (induction xs arbitrary: db)
  case Nil
  show ?case by simp
next
  case (Cons x xs)
  show ?case
  proof (cases "add_contact L u x db")
    case (Pair ro db')
    show ?thesis
    proof (cases ro)
      case None
      then show ?thesis using Pair Cons by simp
    next
      case (Some r)
      have "r \<noteq> JSON 200 (Message ''Contacts added'')"
        using Pair Some
        by (auto simp: add_contact_def Let_def split: option.splits if_splits prod.splits sum.splits)
      then show ?thesis using Pair Some by simp
    qed
  qed
qed

text \<open>What one round of the loop does to a store that answers its calls.\<close>

lemma add_contact_healthy:
  assumes healthy: "faults db1 = []"
    and parse: "phonenumbers.Parse L (Contact.Number c) (ToUpper L (CountryCode c)) = Some pn"
    and valid: "IsValidNumberForRegion L pn (ToUpper L (CountryCode c))"
    and resolve: "GetOrCreateUser db (Format L pn) = (Inr ck, db1)"
  shows "add_contact L u c db = (None,
     (case filter (\<lambda>(k, e). From e = users_handle u \<and> To e = users_handle ck) (documents (contacts db1)) of
        [] \<Rightarrow> db1\<lparr>contacts := contacts db1 @
                 [Some \<lparr>From = users_handle u, To = users_handle ck, Name = Contact.Name c\<rparr>]\<rparr>
      | (k, e) # _ \<Rightarrow>
          if ContactEdge.Name e \<noteq> Contact.Name c
          then db1\<lparr>contacts := (contacts db1)[k := Some (e\<lparr>ContactEdge.Name := Contact.Name c\<rparr>)]\<rparr>
          else db1))"
proof (cases "filter (\<lambda>(k, e). From e = users_handle u \<and> To e = users_handle ck) (documents (contacts db1))")
  case Nil
  then show ?thesis
    using healthy parse valid resolve
    by (simp add: add_contact_def contacts_between_Query_def store_call_healthy HasMore_def
        contacts_CreateDocument_def)
next
  case (Cons p ps)
  obtain k e where p: "p = (k, e)" by (cases p)
  have "(k, e) \<in> set (filter (\<lambda>(k, e). From e = users_handle u \<and> To e = users_handle ck)
      (documents (contacts db1)))"
    using Cons p by simp
  then have stored: "lookup (contacts db1) k = Some e"
    by (simp add: documents_lookup)
  show ?thesis
    using healthy parse valid resolve Cons p stored
    by (simp add: add_contact_def contacts_between_Query_def store_call_healthy HasMore_def
        cursor_ReadDocument_def contacts_UpdateDocument_def)
qed

lemma add_contact_healthy_continues:
  assumes healthy: "faults db = []"
    and parse: "phonenumbers.Parse L (Contact.Number c) (ToUpper L (CountryCode c)) \<noteq> None"
  shows "\<exists>db'. add_contact L u c db = (None, db') \<and> faults db' = []"
proof -
  obtain pn where pn: "phonenumbers.Parse L (Contact.Number c) (ToUpper L (CountryCode c)) = Some pn"
    using parse by blast
  show ?thesis
  proof (cases "IsValidNumberForRegion L pn (ToUpper L (CountryCode c))")
    case False
    then show ?thesis using pn healthy by (simp add: add_contact_skip)
  next
    case True
    obtain ck db1 where r: "GetOrCreateUser db (Format L pn) = (Inr ck, db1)" and h1: "faults db1 = []"
      using GetOrCreateUser_resolves[OF healthy] by blast
    show ?thesis
      using h1 by (simp add: add_contact_healthy[OF h1 pn True r] split: list.splits)
  qed
qed

lemma add_contacts_loop_healthy:
  assumes "faults db = []"
    and "\<forall>c \<in> set xs. phonenumbers.Parse L (Contact.Number c) (ToUpper L (CountryCode c)) \<noteq> None"
  shows "\<exists>db'. add_contacts_loop L u xs db = (JSON 200 (Message ''Contacts added''), db') \<and> faults db' = []"
  using assms
proof (induction xs arbitrary: db)
  case Nil
  then show ?case by simp
next
  case (Cons x xs)
  obtain db1 where 1: "add_contact L u x db = (None, db1)" and h1: "faults db1 = []"
    using add_contact_healthy_continues[of db L x u] Cons.prems by auto
  show ?case using Cons.IH[OF h1] Cons.prems(2) 1 by simp
qed

text \<open>
  C6. On a store that answers its calls, let the contact \<open>c\<close> be the first of a batch whose
  number does not parse. The contacts before it alone make a batch that succeeds; the whole
  batch is answered with 400, and the database it leaves is the one that the contacts before
  \<open>c\<close> leave: their edges stay, and nothing is done for \<open>c\<close> and the contacts after it.
\<close>

theorem unparseable_aborts_batch:
  assumes healthy: "faults db = []"
    and before: "\<forall>x \<in> set xs. phonenumbers.Parse L (Contact.Number x) (ToUpper L (CountryCode x)) \<noteq> None"
    and bad: "phonenumbers.Parse L (Contact.Number c) (ToUpper L (CountryCode c)) = None"
  shows "fst (AddContactsHandler L (Some u) (Some xs) db) = JSON 200 (Message ''Contacts added'')
       \<and> AddContactsHandler L (Some u) (Some (xs @ c # ys)) db
           = (JSON 400 (Error ''Invalid phone number''), snd (AddContactsHandler L (Some u) (Some xs) db))"
proof -
  obtain db' where pre: "add_contacts_loop L u xs db = (JSON 200 (Message ''Contacts added''), db')"
    using add_contacts_loop_healthy[OF healthy before] by blast
  have "add_contacts_loop L u (xs @ c # ys) db = (JSON 400 (Error ''Invalid phone number''), db')"
    using pre bad by (simp add: add_contacts_loop_append add_contact_unparseable)
  then show ?thesis using pre by (simp add: AddContactsHandler_def)
qed

text \<open>
  User 0 submits the sample contact, a contact with an empty number and a third one: the
  answer is 400, and the edge to user 2 for the first contact is in the store.
\<close>

theorem unparseable_aborts_batch_witness:
  "faults sample_graph = []
   \<and> phonenumbers.Parse sample_numbers (Contact.Number sample_contact)
         (ToUpper sample_numbers (CountryCode sample_contact)) \<noteq> None
   \<and> phonenumbers.Parse sample_numbers (Contact.Number (sample_contact\<lparr>Contact.Number := []\<rparr>))
         (ToUpper sample_numbers (CountryCode (sample_contact\<lparr>Contact.Number := []\<rparr>))) = None
   \<and> AddContactsHandler sample_numbers (Some 0)
         (Some ([sample_contact] @ sample_contact\<lparr>Contact.Number := []\<rparr>
                  # [sample_contact\<lparr>Contact.Number := ''700000001''\<rparr>])) sample_graph
       = (JSON 400 (Error ''Invalid phone number''),
          sample_graph\<lparr>contacts := contacts sample_graph
             @ [Some \<lparr>From = users_handle 0, To = users_handle 2, Name = ''Bob''\<rparr>]\<rparr>)"
proof -
  have "AddContactsHandler sample_numbers (Some 0) (Some [sample_contact]) sample_graph
      = (JSON 200 (Message ''Contacts added''),
         sample_graph\<lparr>contacts := contacts sample_graph
             @ [Some \<lparr>From = users_handle 0, To = users_handle 2, Name = ''Bob''\<rparr>]\<rparr>)"
    by code_simp
  then show ?thesis
    using unparseable_aborts_batch[of sample_graph "[sample_contact]" sample_numbers
        "sample_contact\<lparr>Contact.Number := []\<rparr>" 0 "[sample_contact\<lparr>Contact.Number := ''700000001''\<rparr>]"]
    by (simp add: sample_graph_def sample_numbers_def sample_contact_def)
qed

text \<open>
  C7. A contact whose number parses but is not valid for its region leaves no trace: a batch
  with the contact in it is answered as the batch without it and leaves the same database,
  so the contacts around it are worked off as if it were not there; the contact alone is
  answered with 200 and the database is unchanged, users and store calls included.
\<close>

theorem region_invalid_skipped:
  assumes parse: "phonenumbers.Parse L (Contact.Number c) (ToUpper L (CountryCode c)) = Some pn"
    and invalid: "\<not> IsValidNumberForRegion L pn (ToUpper L (CountryCode c))"
  shows "AddContactsHandler L locals (Some (xs @ c # ys)) db = AddContactsHandler L locals (Some (xs @ ys)) db
       \<and> AddContactsHandler L (Some u) (Some [c]) db = (JSON 200 (Message ''Contacts added''), db)"
proof -
  have skip: "add_contact L v c d = (None, d)" for v d
    using parse invalid by (rule add_contact_skip)
  have "add_contacts_loop L v (xs @ c # ys) db = add_contacts_loop L v (xs @ ys) db" for v
    by (simp add: add_contacts_loop_append[of L v xs] skip split: prod.splits)
  then show ?thesis
    by (simp add: AddContactsHandler_def skip split: option.splits)
qed

text \<open>The sample contact with region NO, between two contacts with region SE.\<close>

theorem region_invalid_skipped_witness:
  "phonenumbers.Parse sample_numbers (Contact.Number (sample_contact\<lparr>CountryCode := ''no''\<rparr>))
       (ToUpper sample_numbers (CountryCode (sample_contact\<lparr>CountryCode := ''no''\<rparr>))) = Some ''700000002''
   \<and> \<not> IsValidNumberForRegion sample_numbers ''700000002''
         (ToUpper sample_numbers (CountryCode (sample_contact\<lparr>CountryCode := ''no''\<rparr>)))
   \<and> AddContactsHandler sample_numbers (Some 0)
         (Some ([sample_contact\<lparr>Contact.Number := ''700000001''\<rparr>]
                  @ sample_contact\<lparr>CountryCode := ''no''\<rparr> # [sample_contact])) sample_graph
       = AddContactsHandler sample_numbers (Some 0)
           (Some ([sample_contact\<lparr>Contact.Number := ''700000001''\<rparr>] @ [sample_contact])) sample_graph
   \<and> AddContactsHandler sample_numbers (Some 0) (Some [sample_contact\<lparr>CountryCode := ''no''\<rparr>]) sample_graph
       = (JSON 200 (Message ''Contacts added''), sample_graph)"
  using region_invalid_skipped[of sample_numbers "sample_contact\<lparr>CountryCode := ''no''\<rparr>" "''700000002''"
      "Some 0" "[sample_contact\<lparr>Contact.Number := ''700000001''\<rparr>]" "[sample_contact]" sample_graph 0]
  by (simp add: sample_numbers_def sample_contact_def)

subsection \<open>One edge for every ordered pair\<close>

lemma distinct_map_filter_le1:
  "distinct (map f xs) \<Longrightarrow> length (filter (\<lambda>x. f x = v) xs) \<le> Suc 0"
proof (induction xs)
  case Nil
  show ?case by simp
next
  case (Cons x xs)
  show ?case
  proof (cases "f x = v")
    case True
    have "f x \<notin> f ` set xs"
      using Cons.prems by simp
    then have "f y \<noteq> v" if "y \<in> set xs" for y
      using that True by blast
    then have "filter (\<lambda>x. f x = v) xs = []"
      by (simp add: filter_empty_conv)
    then show ?thesis using True by simp
  next
    case False
    then show ?thesis using Cons by simp
  qed
qed

lemma edges_between_le1:
  assumes "distinct (edge_pairs db)"
  shows "length (edges_between db from to) \<le> Suc 0"
proof -
  have "filter (\<lambda>(k, c). From c = from \<and> To c = to) (documents (contacts db))
      = filter (\<lambda>x. (case x of (k, c) \<Rightarrow> (From c, To c)) = (from, to)) (documents (contacts db))"
    by (rule filter_cong) auto
  moreover have "length (filter (\<lambda>x. (case x of (k, c) \<Rightarrow> (From c, To c)) = (from, to))
      (documents (contacts db))) \<le> Suc 0"
    using assms unfolding edge_pairs_def by (rule distinct_map_filter_le1)
  ultimately show ?thesis
    by (simp add: edges_between_def)
qed

text \<open>
  A round of the loop for a valid contact, when the owner has at most one edge to the
  contact's identity: afterwards there is exactly one, under the submitted name.
\<close>

lemma add_contact_upserts:
  assumes parse: "phonenumbers.Parse L (Contact.Number c) (ToUpper L (CountryCode c)) = Some pn"
    and valid: "IsValidNumberForRegion L pn (ToUpper L (CountryCode c))"
    and resolve: "GetOrCreateUser db (Format L pn) = (Inr ck, db1)"
    and healthy1: "faults db1 = []"
    and same: "contacts db1 = contacts db"
    and single: "length (edges_between db (users_handle u) (users_handle ck)) \<le> Suc 0"
  shows "\<exists>db2. add_contact L u c db = (None, db2) \<and> faults db2 = [] \<and> users db2 = users db1
           \<and> edges_between db2 (users_handle u) (users_handle ck)
               = [\<lparr>From = users_handle u, To = users_handle ck, Name = Contact.Name c\<rparr>]"
proof -
  let ?P = "\<lambda>(k, e). From e = users_handle u \<and> To e = users_handle ck"
  let ?new = "\<lparr>From = users_handle u, To = users_handle ck, Name = Contact.Name c\<rparr>"
  note step = add_contact_healthy[OF healthy1 parse valid resolve, of u]
  show ?thesis
  proof (cases "filter ?P (documents (contacts db1))")
    case Nil
    then show ?thesis using step healthy1
      by (simp add: edges_between_def documents_snoc)
  next
    case (Cons p ps)
    obtain k e where p: "p = (k, e)" by (cases p)
    have ps: "ps = []"
      using single Cons same by (simp add: edges_between_def)
    have mem: "(k, e) \<in> set (filter ?P (documents (contacts db1)))"
      using Cons p by simp
    then have stored: "lookup (contacts db1) k = Some e"
      and ends: "From e = users_handle u" "To e = users_handle ck"
      by (simp_all add: documents_lookup)
    have renamed: "e\<lparr>ContactEdge.Name := Contact.Name c\<rparr> = ?new"
      using ends by (cases e) simp
    show ?thesis
    proof (cases "ContactEdge.Name e = Contact.Name c")
      case True
      then have "e = ?new" using renamed by (cases e) simp
      then show ?thesis using step healthy1 Cons p ps True
        by (simp add: edges_between_def)
    next
      case False
      let ?f = "\<lambda>(k', d). if k' = k then (k', ?new) else (k', d)"
      have docs: "documents ((contacts db1)[k := Some ?new]) = map ?f (documents (contacts db1))"
        using stored by (rule documents_update)
      have "filter ?P (map ?f (documents (contacts db1)))
          = map ?f (filter (?P \<circ> ?f) (documents (contacts db1)))"
        by (simp only: filter_map)
      also have "filter (?P \<circ> ?f) (documents (contacts db1)) = filter ?P (documents (contacts db1))"
      proof (rule filter_cong[OF refl])
        fix x assume x: "x \<in> set (documents (contacts db1))"
        obtain k' d where kd: "x = (k', d)" by (cases x)
        show "(?P \<circ> ?f) x = ?P x"
        proof (cases "k' = k")
          case True
          then have "d = e" using x kd stored by (simp add: documents_lookup)
          then show ?thesis using kd True ends by simp
        next
          case False
          then show ?thesis using kd by simp
        qed
      qed
      finally have "filter ?P (map ?f (documents (contacts db1))) = [(k, ?new)]"
        using Cons p ps by simp
      then show ?thesis using step healthy1 Cons p False renamed docs
        by (simp add: edges_between_def)
    qed
  qed
qed

lemma AddContactsHandler_single:
  "add_contact L u c db = (None, db') \<Longrightarrow>
     AddContactsHandler L (Some u) (Some [c]) db = (JSON 200 (Message ''Contacts added''), db')"
  by (simp add: AddContactsHandler_def)

text \<open>
  The handler keeps the invariant of the data model, whatever the store does: from a
  database with at most one edge for every ordered pair it leaves such a database.
\<close>

lemma add_contact_keeps_edges_distinct:
  assumes inv: "distinct (edge_pairs db)"
  shows "distinct (edge_pairs (snd (add_contact L u c db)))"
proof -
  let ?cc = "ToUpper L (CountryCode c)"
  show ?thesis
  proof (cases "phonenumbers.Parse L (Contact.Number c) ?cc")
    case None
    then show ?thesis using inv by (simp add: add_contact_def)
  next
    case (Some pn)
    show ?thesis
    proof (cases "IsValidNumberForRegion L pn ?cc")
      case False
      then show ?thesis using inv Some by (simp add: add_contact_def)
    next
      case True
      obtain r db1 where g: "GetOrCreateUser db (Format L pn) = (r, db1)"
        by (cases "GetOrCreateUser db (Format L pn)")
      then have c1: "contacts db1 = contacts db"
        using GetOrCreateUser_contacts[of db "Format L pn"] by simp
      show ?thesis
      proof (cases r)
        case (Inl e)
        then show ?thesis using inv Some True g c1 by (simp add: add_contact_def edge_pairs_def)
      next
        case (Inr ck)
        obtain f db2 where sc: "store_call db1 = (f, db2)" by (cases "store_call db1")
        then have c2: "contacts db2 = contacts db"
          using store_call_fields(2)[of db1] c1 by simp
        obtain f' db3 where sc': "store_call db2 = (f', db3)" by (cases "store_call db2")
        then have c3: "contacts db3 = contacts db"
          using store_call_fields(2)[of db2] c2 by simp
        let ?P = "\<lambda>(k, e). From e = users_handle u \<and> To e = users_handle ck"
        show ?thesis
        proof (cases "filter ?P (documents (contacts db))")
          case Nil
          then have fresh: "(users_handle u, users_handle ck) \<notin> set (edge_pairs db)"
            by (auto simp: edge_pairs_def filter_empty_conv)
          show ?thesis
            using inv Some True g Inr sc sc' c2 c3 Nil fresh
            by (cases f; cases f')
              (simp_all add: add_contact_def contacts_between_Query_def HasMore_def
                contacts_CreateDocument_def edge_pairs_def documents_snoc)
        next
          case (Cons p ps)
          obtain k e where p: "p = (k, e)" by (cases p)
          have "(k, e) \<in> set (filter ?P (documents (contacts db)))"
            using Cons p by simp
          then have stored: "lookup (contacts db) k = Some e"
            and ends: "From e = users_handle u" "To e = users_handle ck"
            by (simp_all add: documents_lookup)
          let ?new = "e\<lparr>ContactEdge.Name := Contact.Name c\<rparr>"
          let ?f = "\<lambda>(k', d). if k' = k then (k', ?new) else (k', d)"
          have "map (\<lambda>(k, c). (From c, To c)) (map ?f (documents (contacts db)))
              = map (\<lambda>(k, c). (From c, To c)) (documents (contacts db))"
            using stored by (auto simp: documents_lookup)
          then have upd: "map (\<lambda>(k, c). (From c, To c)) (documents ((contacts db)[k := Some ?new]))
              = map (\<lambda>(k, c). (From c, To c)) (documents (contacts db))"
            using documents_update[OF stored, of ?new] by simp
          obtain f'' db4 where sc'': "store_call db3 = (f'', db4)" by (cases "store_call db3")
          then have c4: "contacts db4 = contacts db"
            using store_call_fields(2)[of db3] c3 by simp
          show ?thesis
            using inv Some True g Inr sc sc' sc'' c2 c3 c4 Cons p stored upd
            by (cases f; cases f'; cases f'')
              (simp_all add: add_contact_def contacts_between_Query_def HasMore_def
                cursor_ReadDocument_def contacts_UpdateDocument_def edge_pairs_def)
        qed
      qed
    qed
  qed
qed

lemma add_contacts_loop_keeps_edges_distinct:
  "distinct (edge_pairs db) \<Longrightarrow> distinct (edge_pairs (snd (add_contacts_loop L u cs db)))"
proof (induction cs arbitrary: db)
  case Nil
  then show ?case by simp
next
  case (Cons c cs)
  obtain r db' where s: "add_contact L u c db = (r, db')" by (cases "add_contact L u c db")
  then have "distinct (edge_pairs db')"
    using add_contact_keeps_edges_distinct[OF Cons.prems, of L u c] by simp
  then show ?case using s Cons.IH[of db'] by (cases r) simp_all
qed

lemma AddContactsHandler_keeps_edges_distinct:
  "distinct (edge_pairs db) \<Longrightarrow> distinct (edge_pairs (snd (AddContactsHandler L locals body db)))"
  by (simp add: AddContactsHandler_def add_contacts_loop_keeps_edges_distinct split: option.splits)

lemma empty_database_edges_distinct:
  "distinct (edge_pairs \<lparr>users = [], contacts = [], verification_attempts = [], faults = fs\<rparr>)"
  by (simp add: edge_pairs_def documents_def)

text \<open>
  C8. Take a store that answers its calls and holds at most one edge for every ordered pair,
  an owner \<open>u\<close> and a contact whose number is valid for its region. The owner submits the
  contact under the name \<open>A\<close> and then under the name \<open>B\<close>. Both requests succeed; the
  contact's number then resolves to an identity \<open>ck\<close> without creating one, the store
  holds exactly one edge from the owner to \<open>ck\<close>, its name is \<open>B\<close>, and submitting the
  contact under the name \<open>B\<close> once more succeeds and leaves the database as it is.
\<close>

theorem edge_dedup_update:
  assumes healthy: "faults db = []"
    and inv: "distinct (edge_pairs db)"
    and parse: "phonenumbers.Parse L (Contact.Number c) (ToUpper L (CountryCode c)) = Some pn"
    and valid: "IsValidNumberForRegion L pn (ToUpper L (CountryCode c))"
  shows "\<exists>db1 db2 ck.
      AddContactsHandler L (Some u) (Some [c\<lparr>Contact.Name := A\<rparr>]) db
        = (JSON 200 (Message ''Contacts added''), db1)
    \<and> AddContactsHandler L (Some u) (Some [c\<lparr>Contact.Name := B\<rparr>]) db1
        = (JSON 200 (Message ''Contacts added''), db2)
    \<and> GetOrCreateUser db2 (Format L pn) = (Inr ck, db2)
    \<and> edges_between db2 (users_handle u) (users_handle ck)
        = [\<lparr>From = users_handle u, To = users_handle ck, Name = B\<rparr>]
    \<and> AddContactsHandler L (Some u) (Some [c\<lparr>Contact.Name := B\<rparr>]) db2
        = (JSON 200 (Message ''Contacts added''), db2)"
proof -
  let ?n = "Format L pn"
  let ?cA = "c\<lparr>Contact.Name := A\<rparr>" and ?cB = "c\<lparr>Contact.Name := B\<rparr>"
  have pA: "phonenumbers.Parse L (Contact.Number ?cA) (ToUpper L (CountryCode ?cA)) = Some pn"
    and vA: "IsValidNumberForRegion L pn (ToUpper L (CountryCode ?cA))"
    and pB: "phonenumbers.Parse L (Contact.Number ?cB) (ToUpper L (CountryCode ?cB)) = Some pn"
    and vB: "IsValidNumberForRegion L pn (ToUpper L (CountryCode ?cB))"
    using parse valid by simp_all
  obtain ck d0 usr rest where r0: "GetOrCreateUser db ?n = (Inr ck, d0)" and h0: "faults d0 = []"
    and c0: "contacts d0 = contacts db"
    and u0: "filter (\<lambda>(k, u). User.Number u = ?n) (documents (users d0)) = (ck, usr) # rest"
    using GetOrCreateUser_resolves[OF healthy, of ?n] by blast
  obtain db1 where s1: "add_contact L u ?cA db = (None, db1)" and h1: "faults db1 = []"
    and us1: "users db1 = users d0"
    and e1: "edges_between db1 (users_handle u) (users_handle ck)
               = [\<lparr>From = users_handle u, To = users_handle ck, Name = A\<rparr>]"
    using add_contact_upserts[OF pA vA r0 h0 c0 edges_between_le1[OF inv], of u] by auto
  have r1: "GetOrCreateUser db1 ?n = (Inr ck, db1)"
    using h1 u0 us1 by (simp add: GetOrCreateUser_again)
  have single1: "length (edges_between db1 (users_handle u) (users_handle ck)) \<le> Suc 0"
    using e1 by simp
  obtain db2 where s2: "add_contact L u ?cB db1 = (None, db2)" and h2: "faults db2 = []"
    and us2: "users db2 = users db1"
    and e2: "edges_between db2 (users_handle u) (users_handle ck)
               = [\<lparr>From = users_handle u, To = users_handle ck, Name = B\<rparr>]"
    using add_contact_upserts[OF pB vB r1 h1 refl single1] by auto
  have r2: "GetOrCreateUser db2 ?n = (Inr ck, db2)"
    using h2 u0 us1 us2 by (simp add: GetOrCreateUser_again)
  have s3: "add_contact L u ?cB db2 = (None, db2)"
  proof -
    obtain q qs where q: "filter (\<lambda>(k, e). From e = users_handle u \<and> To e = users_handle ck)
        (documents (contacts db2)) = q # qs"
      and "snd q = \<lparr>From = users_handle u, To = users_handle ck, Name = B\<rparr>"
      using e2 by (auto simp: edges_between_def)
    then show ?thesis
      using add_contact_healthy[OF h2 pB vB r2, of u] by (cases q) simp
  qed
  show ?thesis
    using AddContactsHandler_single[OF s1] AddContactsHandler_single[OF s2]
      AddContactsHandler_single[OF s3] r2 e2 by blast
qed

text \<open>
  User 1 of the sample graph, who has the contact stored as Bob, submits it as Alice and
  then as Bob again.
\<close>

theorem edge_dedup_update_witness:
  "faults sample_graph = []
   \<and> distinct (edge_pairs sample_graph)
   \<and> phonenumbers.Parse sample_numbers (Contact.Number sample_contact)
       (ToUpper sample_numbers (CountryCode sample_contact)) = Some ''700000002''
   \<and> IsValidNumberForRegion sample_numbers ''700000002'' (ToUpper sample_numbers (CountryCode sample_contact))
   \<and> (\<exists>db1 db2 ck.
        AddContactsHandler sample_numbers (Some 1) (Some [sample_contact\<lparr>Contact.Name := ''Alice''\<rparr>])
            sample_graph
          = (JSON 200 (Message ''Contacts added''), db1)
      \<and> AddContactsHandler sample_numbers (Some 1) (Some [sample_contact\<lparr>Contact.Name := ''Bob''\<rparr>]) db1
          = (JSON 200 (Message ''Contacts added''), db2)
      \<and> GetOrCreateUser db2 (Format sample_numbers ''700000002'') = (Inr ck, db2)
      \<and> edges_between db2 (users_handle 1) (users_handle ck)
          = [\<lparr>From = users_handle 1, To = users_handle ck, Name = ''Bob''\<rparr>]
      \<and> AddContactsHandler sample_numbers (Some 1) (Some [sample_contact\<lparr>Contact.Name := ''Bob''\<rparr>]) db2
          = (JSON 200 (Message ''Contacts added''), db2))"
proof -
  have 1: "faults sample_graph = []"
    by (simp add: sample_graph_def)
  have 2: "distinct (edge_pairs sample_graph)"
    by (simp add: sample_graph_def edge_pairs_def documents_def)
  have 3: "phonenumbers.Parse sample_numbers (Contact.Number sample_contact)
       (ToUpper sample_numbers (CountryCode sample_contact)) = Some ''700000002''"
    by (simp add: sample_numbers_def sample_contact_def)
  have 4: "IsValidNumberForRegion sample_numbers ''700000002''
       (ToUpper sample_numbers (CountryCode sample_contact))"
    by (simp add: sample_numbers_def sample_contact_def)
  show ?thesis
    using 1 2 3 4 edge_dedup_update[OF 1 2 3 4, of 1 "''Alice''" "''Bob''"] by blast
qed

section \<open>Listing contacts\<close>

lemma read_contacts_healthy:
  "faults db = [] \<Longrightarrow> read_contacts cur result db = (JSON 200 (ContactList (result @ cur)), db)"
  by (induction cur arbitrary: result) (simp_all add: cursor_ReadDocument_def store_call_healthy)

text \<open>The handler never looks at the identity that the middleware stored.\<close>

lemma GetContactsHandler_ignores_locals:
  "GetContactsHandler locals body db = GetContactsHandler locals' body db"
  by (simp add: GetContactsHandler_def)

text \<open>
  C1, as the handler has it. On a store that answers its calls, the list returned for a
  request with a body is the one-hop contact list of the \<open>user_key\<close> in the body of the
  request, whatever identity the bearer credential carries; the database is unchanged.
\<close>

theorem contacts_of_requested_key:
  assumes "faults db = []"
  shows "GetContactsHandler locals (Some request) db
           = (JSON 200 (ContactList (listContacts db (GetContactsRequest.UserKey request))), db)"
proof -
  have "map (\<lambda>(k, e). \<lparr>GetContactsResult.Name = ContactEdge.Name e, UserKey = vertex_key db (To e)\<rparr>)
          (filter (\<lambda>(k, e). From e = h) ds)
      = map (\<lambda>e. \<lparr>GetContactsResult.Name = ContactEdge.Name e, UserKey = vertex_key db (To e)\<rparr>)
          (filter (\<lambda>e. From e = h) (map snd ds))" for h and ds :: "(key \<times> ContactEdge) list"
    by (induction ds) auto
  then show ?thesis
    using assms
    by (simp add: GetContactsHandler_def outbound_Query_def store_call_healthy read_contacts_healthy
        listContacts_def)
qed

theorem contacts_of_requested_key_witness:
  "faults sample_graph = []
   \<and> GetContactsHandler (Some 0) (Some \<lparr>GetContactsRequest.UserKey = 1\<rparr>) sample_graph
       = (JSON 200 (ContactList [\<lparr>GetContactsResult.Name = ''Bob'', UserKey = Some 2\<rparr>]), sample_graph)"
  using contacts_of_requested_key[of sample_graph "Some 0" "\<lparr>GetContactsRequest.UserKey = 1\<rparr>"]
  by (simp add: sample_graph_def listContacts_def documents_def users_handle_def vertex_key_def lookup_def)

text \<open>
  C1, as stated, fails on the sample graph. The request carries the credential of user 0,
  who has no contacts, and names user 1 in its body: the middleware passes it on as user 0,
  and the answer is the contact list of user 1, not the empty list of user 0.
\<close>

theorem contacts_of_authenticated_counterexample:
  "AuthMiddleware sample_jwt 0 ''Bearer signed'' = Next (Some 0)
   \<and> fst (api_route sample_jwt 0 ''Bearer signed''
            (\<lambda>locals. GetContactsHandler locals (Some \<lparr>GetContactsRequest.UserKey = 1\<rparr>)) sample_graph)
       = JSON 200 (ContactList [\<lparr>GetContactsResult.Name = ''Bob'', UserKey = Some 2\<rparr>])
   \<and> listContacts sample_graph 0 = []
   \<and> fst (api_route sample_jwt 0 ''Bearer signed''
            (\<lambda>locals. GetContactsHandler locals (Some \<lparr>GetContactsRequest.UserKey = 1\<rparr>)) sample_graph)
       \<noteq> JSON 200 (ContactList (listContacts sample_graph 0))"
  by code_simp

end
